theory Spec2Isabelle
  imports Main
begin

section \<open>Progressive S3 upload plugin: shallow embedding of miniwdl_s3upload.py\<close>

text \<open>
  The module keeps two process-wide dictionaries, \<open>_uploaded_files\<close> (the upload ledger) and
  \<open>_cached_files\<close> (the pending cache-insert registry), both keyed by the (device, inode) pair of
  a local file.  Every function of the module is embedded as a function on an explicit state
  that carries the two dictionaries together with the requests sent to the collaborators
  (object store, copy tool, logger).  An exception is a value \<open>Inl e\<close>; the state returned next
  to it is the state the process is left in when the exception propagates.  The module takes
  one lock around every access to the dictionaries and another around the copy tool; the
  embedding is sequential, one invocation after the other, and the file system does not
  change during an invocation.
\<close>

subsection \<open>Strings and paths\<close>

definition startswith :: "string \<Rightarrow> string \<Rightarrow> bool" where
  "startswith s p = (take (length p) s = p)"

definition endswith :: "string \<Rightarrow> string \<Rightarrow> bool" where
  "endswith s p = (length p \<le> length s \<and> drop (length s - length p) s = p)"

text \<open>\<open>os.path.join\<close> of two components, and of a first component with a list of further ones.\<close>

definition join2 :: "string \<Rightarrow> string \<Rightarrow> string" where
  "join2 a b =
     (if startswith b ''/'' then b
      else if a = [] \<or> endswith a ''/'' then a @ b
      else a @ ''/'' @ b)"

definition path_join :: "string \<Rightarrow> string list \<Rightarrow> string" where
  "path_join a ps = foldl join2 a ps"

subsection \<open>Errors\<close>

datatype error =
    OSError string
  | RuntimeError string
  | AssertionError
  | ConfigMissing string
  | ClientError string
  | TransportError string
  | NameError string
  | IndexError

subsection \<open>The file system as the module sees it\<close>

text \<open>
  A file identity is the pair \<open>(st_dev, st_ino)\<close>.  The file system is the table of what
  \<open>lstat\<close> answers for a path name: a regular file or a directory with its identity (a
  directory also with the names \<open>os.listdir\<close> returns), or a symbolic link with its target.
  Two names of one file object (hard links) are two entries with the same identity.
\<close>

type_synonym identity = "nat \<times> nat"

datatype fsentry =
    Regular identity
  | Dir identity "string list"
  | Symlink string

type_synonym filesystem = "(string \<times> fsentry) list"

text \<open>
  \<open>os.path.realpath\<close>: follow symbolic links, remembering the links already entered; a link
  met a second time is a loop and is returned unresolved, and a name that does not exist is
  returned as it is.
\<close>

function realpath_from :: "filesystem \<Rightarrow> string list \<Rightarrow> string \<Rightarrow> string" where
  "realpath_from fs seen p =
     (case map_of fs p of
        Some (Symlink t) \<Rightarrow> if p \<in> set seen then p else realpath_from fs (p # seen) t
      | _ \<Rightarrow> p)"
  by pat_completeness auto
termination
proof (relation "measure (\<lambda>(fs, seen, p). card (fst ` set fs - set seen))")
  show "wf (measure (\<lambda>(fs, seen, p). card (fst ` set fs - set seen)))"
    by simp
next
  fix fs :: filesystem and seen :: "string list" and p :: string and x2 :: fsentry and x3 :: string
  assume a: "map_of fs p = Some x2" "x2 = Symlink x3" "p \<notin> set seen"
  from a(1) have "p \<in> fst ` set fs"
    by (metis map_of_SomeD fst_conv image_eqI)
  with a(3) have "fst ` set fs - set (p # seen) \<subset> fst ` set fs - set seen"
    by auto
  then have "card (fst ` set fs - set (p # seen)) < card (fst ` set fs - set seen)"
    by (intro psubset_card_mono) auto
  then show "((fs, p # seen, x3), (fs, seen, p)) \<in> measure (\<lambda>(fs, seen, p). card (fst ` set fs - set seen))"
    by simp
qed

declare realpath_from.simps [simp del]

definition realpath :: "filesystem \<Rightarrow> string \<Rightarrow> string" where
  "realpath fs p = realpath_from fs [] p"

text \<open>
  \<open>os.stat\<close> on a resolved name.  A name that is still a symbolic link after \<open>realpath\<close> lies on
  a loop, and a missing name does not exist: both raise \<open>OSError\<close>.
\<close>

definition stat :: "filesystem \<Rightarrow> string \<Rightarrow> error + identity" where
  "stat fs p =
     (case map_of fs p of
        None \<Rightarrow> Inl (OSError p)
      | Some (Regular i) \<Rightarrow> Inr i
      | Some (Dir i names) \<Rightarrow> Inr i
      | Some (Symlink t) \<Rightarrow> Inl (OSError p))"

definition inode :: "filesystem \<Rightarrow> string \<Rightarrow> error + identity" where
  "inode fs link = stat fs (realpath fs link)"

subsection \<open>WDL values and the path rewriting of the host library\<close>

text \<open>
  A WDL value is a file, a directory, a primitive (rendered as text), or a compound value
  (array, map, pair, struct) with its members in the order the host library visits them.
  Output bindings are a list of named values.
\<close>

datatype ctag = TArray | TMap | TPair | TStruct "string list"

datatype wvalue =
    File string
  | Directory string
  | Prim string
  | Compound ctag "wvalue list"

type_synonym bindings = "(string \<times> wvalue) list"

text \<open>
  \<open>Value.rewrite_env_paths(env, f)\<close> of the host library: a copy of the bindings in which the
  path of every file and directory value is replaced by what the callback returns.  The
  callbacks of this module have effects (they write a dictionary, set a flag, log) and may
  raise, so the callback takes and returns a state and the traversal threads it; an exception
  of the callback ends the traversal.
\<close>

fun rewrite_paths :: "(string \<Rightarrow> 's \<Rightarrow> (error + string) \<times> 's) \<Rightarrow> wvalue \<Rightarrow> 's \<Rightarrow> (error + wvalue) \<times> 's"
  and rewrite_paths_list :: "(string \<Rightarrow> 's \<Rightarrow> (error + string) \<times> 's) \<Rightarrow> wvalue list \<Rightarrow> 's \<Rightarrow> (error + wvalue list) \<times> 's"
where
  "rewrite_paths f (File p) s =
     (case f p s of (Inl e, s') \<Rightarrow> (Inl e, s') | (Inr q, s') \<Rightarrow> (Inr (File q), s'))"
| "rewrite_paths f (Directory p) s =
     (case f p s of (Inl e, s') \<Rightarrow> (Inl e, s') | (Inr q, s') \<Rightarrow> (Inr (Directory q), s'))"
| "rewrite_paths f (Prim x) s = (Inr (Prim x), s)"
| "rewrite_paths f (Compound t vs) s =
     (case rewrite_paths_list f vs s of
        (Inl e, s') \<Rightarrow> (Inl e, s')
      | (Inr ws, s') \<Rightarrow> (Inr (Compound t ws), s'))"
| "rewrite_paths_list f [] s = (Inr [], s)"
| "rewrite_paths_list f (v # vs) s =
     (case rewrite_paths f v s of
        (Inl e, s') \<Rightarrow> (Inl e, s')
      | (Inr w, s') \<Rightarrow>
          (case rewrite_paths_list f vs s' of
             (Inl e, s'') \<Rightarrow> (Inl e, s'')
           | (Inr ws, s'') \<Rightarrow> (Inr (w # ws), s'')))"

fun rewrite_env_paths :: "(string \<Rightarrow> 's \<Rightarrow> (error + string) \<times> 's) \<Rightarrow> bindings \<Rightarrow> 's \<Rightarrow> (error + bindings) \<times> 's" where
  "rewrite_env_paths f [] s = (Inr [], s)"
| "rewrite_env_paths f ((name, v) # env) s =
     (case rewrite_paths f v s of
        (Inl e, s') \<Rightarrow> (Inl e, s')
      | (Inr w, s') \<Rightarrow>
          (case rewrite_env_paths f env s' of
             (Inl e, s'') \<Rightarrow> (Inl e, s'')
           | (Inr env', s'') \<Rightarrow> (Inr ((name, w) # env'), s'')))"

text \<open>The paths of the file and directory values, in the order of the traversal.\<close>

fun paths_of :: "wvalue \<Rightarrow> string list"
  and paths_of_list :: "wvalue list \<Rightarrow> string list"
where
  "paths_of (File p) = [p]"
| "paths_of (Directory p) = [p]"
| "paths_of (Prim x) = []"
| "paths_of (Compound t vs) = paths_of_list vs"
| "paths_of_list [] = []"
| "paths_of_list (v # vs) = paths_of v @ paths_of_list vs"

fun env_paths :: "bindings \<Rightarrow> string list" where
  "env_paths [] = []"
| "env_paths ((name, v) # env) = paths_of v @ env_paths env"

text \<open>The bindings with every path replaced by a pure function of the path.\<close>

fun map_paths :: "(string \<Rightarrow> string) \<Rightarrow> wvalue \<Rightarrow> wvalue"
  and map_paths_list :: "(string \<Rightarrow> string) \<Rightarrow> wvalue list \<Rightarrow> wvalue list"
where
  "map_paths g (File p) = File (g p)"
| "map_paths g (Directory p) = Directory (g p)"
| "map_paths g (Prim x) = Prim x"
| "map_paths g (Compound t vs) = Compound t (map_paths_list g vs)"
| "map_paths_list g [] = []"
| "map_paths_list g (v # vs) = map_paths g v # map_paths_list g vs"

fun map_env_paths :: "(string \<Rightarrow> string) \<Rightarrow> bindings \<Rightarrow> bindings" where
  "map_env_paths g [] = []"
| "map_env_paths g ((name, v) # env) = (name, map_paths g v) # map_env_paths g env"

subsection \<open>Configuration, collaborators and state\<close>

text \<open>
  The options of the host configuration the module reads: \<open>uri_prefix\<close> and
  \<open>call_cache_get_uri_prefix\<close> of section \<open>s3_progressive_upload\<close> (absent options are
  \<open>None\<close>), and \<open>put\<close>, \<open>backend\<close> and \<open>dir\<close> of section \<open>call_cache\<close>.
\<close>

record config =
  uri_prefix :: "string option"
  call_cache_get_uri_prefix :: "string option"
  call_cache_put :: bool
  call_cache_backend :: string
  call_cache_dir :: string

text \<open>
  A JSON document is the bindings it serialises, with the namespace \<open>values_to_json\<close> was
  given (empty for a cache manifest).
\<close>

type_synonym json_doc = "string \<times> bindings"

datatype download_result =
    Downloaded json_doc
  | ClientFailure string
  | OtherFailure string

text \<open>
  What the collaborators answer: the exit status and the standard-error text of the copy
  tool for a local path and a destination; the outcome of \<open>download_file\<close> for a bucket and an
  object key (a \<open>ClientError\<close> carries its error code); how \<open>urlparse\<close> splits a URI into host
  name and path; the environment variable \<open>WDL_OUTPUT_URI\<close>; and the working directory.
\<close>

record collaborators =
  s3parcp :: "string \<Rightarrow> string \<Rightarrow> int \<times> string"
  download_file :: "string \<Rightarrow> string \<Rightarrow> download_result"
  urlparse :: "string \<Rightarrow> string \<times> string"
  wdl_output_uri :: "string option"
  getcwd :: string

datatype level = DEBUG | INFO | WARNING | ERROR

datatype logval = Text string | Number int

type_synonym log_entry = "level \<times> string \<times> (string \<times> logval) list"

text \<open>
  The state: the two dictionaries, then what the module has asked of its collaborators, in
  order: the manifests put to the object store (\<open>s3_objects\<close>, URI and body), the objects
  tagged, the invocations of the copy tool, the local files written, and the log.
\<close>

record state =
  uploaded_files :: "identity \<rightharpoonup> string"
  cached_files :: "identity \<rightharpoonup> string \<times> bindings"
  s3_objects :: "(string \<times> json_doc) list"
  s3_tags :: "(string \<times> string \<times> string) list"
  s3parcp_calls :: "(string \<times> string) list"
  local_files :: "(string \<times> json_doc) list"
  log :: "log_entry list"

definition logging :: "level \<Rightarrow> string \<Rightarrow> (string \<times> logval) list \<Rightarrow> state \<Rightarrow> state" where
  "logging lv msg kv s = s\<lparr>log := log s @ [(lv, msg, kv)]\<rparr>"

subsection \<open>Prefixes\<close>

definition get_s3_put_prefix :: "config \<Rightarrow> error + string" where
  "get_s3_put_prefix cfg =
     (case uri_prefix cfg of
        None \<Rightarrow> Inl (ConfigMissing ''uri_prefix'')
      | Some s3prefix \<Rightarrow>
          if startswith s3prefix ''s3://'' then Inr s3prefix else Inl AssertionError)"


subsection \<open>The copy tool\<close>

definition cmdline :: "string \<Rightarrow> string \<Rightarrow> string" where
  "cmdline fn s3uri = ''s3parcp'' @ '' '' @ fn @ '' '' @ s3uri"

definition s3cp :: "collaborators \<Rightarrow> string \<Rightarrow> string \<Rightarrow> state \<Rightarrow> (error + unit) \<times> state" where
  "s3cp ext fn s3uri s =
     (let s1 = logging DEBUG (cmdline fn s3uri) [] s;
          s2 = s1\<lparr>s3parcp_calls := s3parcp_calls s1 @ [(fn, s3uri)]\<rparr>;
          (returncode, stderr) = s3parcp ext fn s3uri
      in if returncode \<noteq> 0
         then (Inl (RuntimeError (''failed: '' @ cmdline fn s3uri)),
               logging ERROR ''failed uploading output file''
                 [(''cmd'', Text (cmdline fn s3uri)), (''exit_status'', Number returncode),
                  (''stderr'', Text stderr)] s2)
         else (Inr (), s2))"

subsection \<open>Cache insert\<close>

definition backend_marker :: string where
  "backend_marker = ''s3_progressive_upload_call_cache_backend''"

text \<open>
  The callback of \<open>cache_put\<close>.  Its flag \<open>missing\<close> is the state threaded by the traversal;
  the ledger is read only.  Once the flag is set the identity is not computed any more.
\<close>

definition cache_put_cache :: "filesystem \<Rightarrow> (identity \<rightharpoonup> string) \<Rightarrow> string \<Rightarrow> bool \<Rightarrow> (error + string) \<times> bool" where
  "cache_put_cache fs uploaded p missing =
     (if missing then (Inr [], True)
      else case inode fs p of
             Inl e \<Rightarrow> (Inl e, missing)
           | Inr i \<Rightarrow>
               (case uploaded i of
                  None \<Rightarrow> (Inr [], True)
                | Some uri \<Rightarrow> (Inr uri, False)))"

text \<open>
  \<open>cache_put\<close> itself.  \<open>s3_object\<close> asserts that the URI starts with \<open>s3://\<close> and splits it into
  bucket and key; a URI that passes the assertion is the prefix followed by \<open>cache/\<close> and the
  file name, so the split always finds both.  The put request and the tag request are
  recorded with the URI.
\<close>

definition cache_uri :: "string \<Rightarrow> string \<Rightarrow> string" where
  "cache_uri s3prefix key = path_join s3prefix [''cache'', key @ ''.json'']"

definition cache_put :: "config \<Rightarrow> filesystem \<Rightarrow> string \<Rightarrow> bindings \<Rightarrow> state \<Rightarrow> (error + unit) \<times> state" where
  "cache_put cfg fs key outputs s =
     (if \<not> (call_cache_put cfg \<and> call_cache_backend cfg = backend_marker) then (Inr (), s)
      else case rewrite_env_paths (cache_put_cache fs (uploaded_files s)) outputs False of
             (Inl e, missing) \<Rightarrow> (Inl e, s)
           | (Inr remapped_outputs, missing) \<Rightarrow>
               if missing then (Inr (), s)
               else (case get_s3_put_prefix cfg of
                       Inl e \<Rightarrow> (Inl e, s)
                     | Inr s3prefix \<Rightarrow>
                         let uri = cache_uri s3prefix key
                         in if \<not> startswith uri ''s3://'' then (Inl AssertionError, s)
                            else (Inr (),
                                  logging INFO ''call cache insert'' [(''cache_file'', Text uri)]
                                    (s\<lparr>s3_objects := s3_objects s @ [(uri, ([], remapped_outputs))],
                                       s3_tags := s3_tags s @ [(uri, ''swipe_temporary'', ''true'')]\<rparr>))))"

text \<open>The callback of \<open>CallCache.put\<close>: it registers the identity and returns the empty string.\<close>

definition put_cache :: "filesystem \<Rightarrow> string \<Rightarrow> bindings \<Rightarrow> string \<Rightarrow> state \<Rightarrow> (error + string) \<times> state" where
  "put_cache fs key outputs p s =
     (case inode fs p of
        Inl e \<Rightarrow> (Inl e, s)
      | Inr i \<Rightarrow> (Inr [], s\<lparr>cached_files := (cached_files s)(i \<mapsto> (key, outputs))\<rparr>))"

definition put :: "config \<Rightarrow> filesystem \<Rightarrow> string \<Rightarrow> bindings \<Rightarrow> state \<Rightarrow> (error + unit) \<times> state" where
  "put cfg fs key outputs s =
     (if \<not> call_cache_put cfg then (Inr (), s)
      else case rewrite_env_paths (put_cache fs key outputs) outputs s of
             (Inl e, s') \<Rightarrow> (Inl e, s')
           | (Inr ignored, s') \<Rightarrow> cache_put cfg fs key outputs s')"

subsection \<open>Uploading one file\<close>

definition upload_file :: "config \<Rightarrow> filesystem \<Rightarrow> collaborators \<Rightarrow> string \<Rightarrow> string \<Rightarrow> state \<Rightarrow> (error + unit) \<times> state" where
  "upload_file cfg fs ext abs_fn s3uri s =
     (case s3cp ext abs_fn s3uri s of
        (Inl e, s1) \<Rightarrow> (Inl e, s1)
      | (Inr u, s1) \<Rightarrow>
          (case inode fs abs_fn of
             Inl e \<Rightarrow> (Inl e, s1)
           | Inr i \<Rightarrow>
               let s2 = s1\<lparr>uploaded_files := (uploaded_files s1)(i \<mapsto> s3uri)\<rparr>
               in (case cached_files s2 i of
                     None \<Rightarrow> (Inr (), logging INFO ''task output uploaded'' [(''file'', Text abs_fn), (''uri'', Text s3uri)] s2)
                   | Some (key, outputs) \<Rightarrow>
                       (case cache_put cfg fs key outputs s2 of
                          (Inl e, s3) \<Rightarrow> (Inl e, s3)
                        | (Inr u', s3) \<Rightarrow>
                            (Inr (), logging INFO ''task output uploaded'' [(''file'', Text abs_fn), (''uri'', Text s3uri)] s3)))))"

subsection \<open>Cache lookup\<close>


subsection \<open>The workflow hook\<close>

text \<open>
  The callback of \<open>write_outputs_s3_json\<close>.  When the ledger lookup raises (the identity is
  not a key, or the path does not exist), the handler logs the warning and evaluates
  \<open>return fn\<close>; \<open>fn\<close> is a local variable of the enclosing function that is assigned only after
  the traversal, so the evaluation raises \<open>NameError\<close>.
\<close>

definition rewriter :: "filesystem \<Rightarrow> string \<Rightarrow> state \<Rightarrow> (error + string) \<times> state" where
  "rewriter fs p s =
     (let found = (case inode fs p of Inl e \<Rightarrow> None | Inr i \<Rightarrow> uploaded_files s i)
      in case found of
           Some uri \<Rightarrow> (Inr uri, s)
         | None \<Rightarrow>
             (Inl (NameError ''fn''),
              logging WARNING
                ''output file or directory wasn't uploaded to S3; keeping local path in outputs.s3.json''
                [(''path'', Text p)] s))"

definition write_outputs_s3_json ::
  "filesystem \<Rightarrow> collaborators \<Rightarrow> bindings \<Rightarrow> string \<Rightarrow> string \<Rightarrow> string \<Rightarrow> state \<Rightarrow> (error + unit) \<times> state" where
  "write_outputs_s3_json fs ext outputs run_dir s3prefix namespace s =
     (case rewrite_env_paths (rewriter fs) outputs s of
        (Inl e, s1) \<Rightarrow> (Inl e, s1)
      | (Inr outputs_s3, s1) \<Rightarrow>
          let fn = path_join run_dir [''outputs.s3.json''];
              s2 = s1\<lparr>local_files := local_files s1 @ [(fn, (namespace, outputs_s3))]\<rparr>
          in s3cp ext fn
               (case wdl_output_uri ext of
                  Some uri \<Rightarrow> uri
                | None \<Rightarrow> path_join s3prefix [''outputs.s3.json''])
               s2)"

text \<open>The hook returns the outputs it received.\<close>

definition workflow ::
  "config \<Rightarrow> filesystem \<Rightarrow> collaborators \<Rightarrow> string list \<Rightarrow> string \<Rightarrow> string \<Rightarrow> bindings \<Rightarrow> state
     \<Rightarrow> (error + bindings) \<times> state" where
  "workflow cfg fs ext run_id run_dir name outputs s =
     (if uri_prefix cfg \<noteq> None
      then (case get_s3_put_prefix cfg of
              Inl e \<Rightarrow> (Inl e, s)
            | Inr s3prefix \<Rightarrow>
                (case write_outputs_s3_json fs ext outputs run_dir (path_join s3prefix (drop 1 run_id)) name s of
                   (Inl e, s') \<Rightarrow> (Inl e, s')
                 | (Inr u, s') \<Rightarrow> (Inr outputs, s')))
      else (Inr outputs, s))"

subsection \<open>Directories\<close>

text \<open>
  A file name is not empty and has no slash; \<open>os.listdir\<close> returns file names only.  The tests
  \<open>isdir\<close> and \<open>isfile\<close> follow symbolic links, \<open>islink\<close> does not.
\<close>

definition valid_name :: "string \<Rightarrow> bool" where
  "valid_name n = (n \<noteq> [] \<and> CHR ''/'' \<notin> set n)"

definition listdir :: "filesystem \<Rightarrow> string \<Rightarrow> error + string list" where
  "listdir fs p =
     (case map_of fs (realpath fs p) of
        Some (Dir i names) \<Rightarrow> Inr (filter valid_name names)
      | _ \<Rightarrow> Inl (OSError p))"

definition isdir :: "filesystem \<Rightarrow> string \<Rightarrow> bool" where
  "isdir fs p = (case map_of fs (realpath fs p) of Some (Dir i names) \<Rightarrow> True | _ \<Rightarrow> False)"

definition isfile :: "filesystem \<Rightarrow> string \<Rightarrow> bool" where
  "isfile fs p = (case map_of fs (realpath fs p) of Some (Regular i) \<Rightarrow> True | _ \<Rightarrow> False)"

definition islink :: "filesystem \<Rightarrow> string \<Rightarrow> bool" where
  "islink fs p = (case map_of fs p of Some (Symlink t) \<Rightarrow> True | _ \<Rightarrow> False)"

definition basename :: "string \<Rightarrow> string" where
  "basename p = rev (takeWhile (\<lambda>c. c \<noteq> CHR ''/'') (rev p))"

definition isdigit :: "string \<Rightarrow> bool" where
  "isdigit n = (n \<noteq> [] \<and> list_all (\<lambda>c. c \<in> set ''0123456789'') n)"

text \<open>\<open>str.split\<close> on a separator, \<open>os.path.normpath\<close>, \<open>os.path.abspath\<close> and \<open>os.path.relpath\<close>.\<close>

fun split_on :: "char \<Rightarrow> string \<Rightarrow> string list" where
  "split_on c [] = [[]]"
| "split_on c (x # xs) =
     (if x = c then [] # split_on c xs
      else (case split_on c xs of [] \<Rightarrow> [[x]] | w # ws \<Rightarrow> (x # w) # ws))"

definition norm_step :: "bool \<Rightarrow> string list \<Rightarrow> string \<Rightarrow> string list" where
  "norm_step initial_slashes new_comps part =
     (if part = [] \<or> part = ''.'' then new_comps
      else if part \<noteq> ''..'' \<or> (\<not> initial_slashes \<and> new_comps = [])
                \<or> (new_comps \<noteq> [] \<and> last new_comps = ''..'')
           then new_comps @ [part]
      else butlast new_comps)"

definition intercalate :: "string \<Rightarrow> string list \<Rightarrow> string" where
  "intercalate sep comps = (case comps of [] \<Rightarrow> [] | c # cs \<Rightarrow> foldl (\<lambda>a b. a @ sep @ b) c cs)"

definition normpath :: "string \<Rightarrow> string" where
  "normpath path =
     (if path = [] then ''.''
      else let initial_slashes =
                 (if \<not> startswith path ''/'' then (0::nat)
                  else if startswith path ''//'' \<and> \<not> startswith path ''///'' then 2
                  else 1);
               new_comps = foldl (norm_step (0 < initial_slashes)) [] (split_on CHR ''/'' path);
               p = replicate initial_slashes CHR ''/'' @ intercalate ''/'' new_comps
           in if p = [] then ''.'' else p)"

definition abspath :: "string \<Rightarrow> string \<Rightarrow> string" where
  "abspath cwd path = normpath (if startswith path ''/'' then path else join2 cwd path)"

fun commonprefix :: "string list \<Rightarrow> string list \<Rightarrow> string list" where
  "commonprefix (x # xs) (y # ys) = (if x = y then x # commonprefix xs ys else [])"
| "commonprefix xs ys = []"

definition relpath :: "string \<Rightarrow> string \<Rightarrow> string \<Rightarrow> string" where
  "relpath cwd path start =
     (let start_list = filter (\<lambda>x. x \<noteq> []) (split_on CHR ''/'' (abspath cwd start));
          path_list = filter (\<lambda>x. x \<noteq> []) (split_on CHR ''/'' (abspath cwd path));
          i = length (commonprefix start_list path_list);
          rel_list = replicate (length start_list - i) ''..'' @ drop i path_list
      in case rel_list of [] \<Rightarrow> ''.'' | r # rs \<Rightarrow> path_join r rs)"

text \<open>
  \<open>os.walk\<close>, top down and without following links: a directory with its sub-directory names
  and its other names, then the walk of each sub-directory that is not a symbolic link.  A
  directory that \<open>isdir\<close> accepts can be listed, so the error callback of the walk has nothing
  to raise in a file system that stays as it is.
\<close>

function walk :: "filesystem \<Rightarrow> string \<Rightarrow> (string \<times> string list \<times> string list) list" where
  "walk fs dn =
     (case listdir fs dn of
        Inl e \<Rightarrow> []
      | Inr names \<Rightarrow>
          (dn, filter (\<lambda>n. isdir fs (join2 dn n)) names, filter (\<lambda>n. \<not> isdir fs (join2 dn n)) names)
          # concat (map (\<lambda>d. if islink fs (join2 dn d) then [] else walk fs (join2 dn d))
                        (filter (\<lambda>n. isdir fs (join2 dn n)) names)))"
  by pat_completeness auto
termination
proof (relation "measure (\<lambda>(fs, dn). Suc (Max (insert 0 (length ` fst ` set fs))) - length dn)")
  show "wf (measure (\<lambda>(fs, dn). Suc (Max (insert 0 (length ` fst ` set fs))) - length dn))"
    by simp
next
  fix fs :: filesystem and dn :: string and names :: "string list" and d :: string
  assume l: "listdir fs dn = Inr names"
    and d: "d \<in> set (filter (\<lambda>n. isdir fs (join2 dn n)) names)"
    and nl: "\<not> islink fs (join2 dn d)"
  let ?p = "join2 dn d"
  from l have "set names \<subseteq> {n. valid_name n}"
    by (auto simp: listdir_def split: option.splits fsentry.splits)
  with d have v: "valid_name d" and dir: "isdir fs ?p" by auto
  from v have "\<not> startswith d ''/''"
    by (cases d) (auto simp: valid_name_def startswith_def)
  with v have longer: "length dn < length ?p"
    by (auto simp: join2_def valid_name_def)
  from nl have "realpath fs ?p = ?p"
    unfolding realpath_def
    by (subst realpath_from.simps) (auto simp: islink_def split: option.splits fsentry.splits)
  with dir obtain e where "map_of fs ?p = Some e"
    by (auto simp: isdir_def split: option.splits)
  then have "(?p, e) \<in> set fs"
    by (rule map_of_SomeD)
  then have "?p \<in> fst ` set fs"
    by (metis fst_conv image_eqI)
  then have "length ?p \<le> Max (insert 0 (length ` fst ` set fs))"
    by (intro Max_ge) auto
  with longer show "((fs, ?p), (fs, dn)) \<in> measure (\<lambda>(fs, dn). Suc (Max (insert 0 (length ` fst ` set fs))) - length dn)"
    by simp
qed

declare walk.simps [simp del]

subsection \<open>The task hook\<close>

text \<open>A \<open>for\<close> loop whose body may raise: the first exception ends the loop.\<close>

fun for_each :: "('a \<Rightarrow> state \<Rightarrow> (error + unit) \<times> state) \<Rightarrow> 'a list \<Rightarrow> state \<Rightarrow> (error + unit) \<times> state" where
  "for_each body [] s = (Inr (), s)"
| "for_each body (x # xs) s =
     (case body x s of
        (Inl e, s') \<Rightarrow> (Inl e, s')
      | (Inr u, s') \<Rightarrow> for_each body xs s')"

text \<open>
  The body of the loop over the output sub-directories of \<open>out\<close>: one sub-directory holds a
  directory output (a single symbolic link to a directory), a file output (a single file),
  or a file array (index directories with one file each).
\<close>

definition upload_directory ::
  "config \<Rightarrow> filesystem \<Rightarrow> collaborators \<Rightarrow> string \<Rightarrow> string \<Rightarrow> string \<Rightarrow> state \<Rightarrow> (error + unit) \<times> state" where
  "upload_directory cfg fs ext s3prefix abs_output dir s =
     (case inode fs dir of
        Inl e \<Rightarrow> (Inl e, s)
      | Inr i \<Rightarrow>
          for_each
            (\<lambda>(dn, subdirs, files) s'.
               if \<not> (dn = dir \<or> startswith dn (dir @ ''/'')) then (Inl AssertionError, s')
               else for_each
                      (\<lambda>fn. upload_file cfg fs ext (join2 dn fn)
                               (join2 s3prefix (relpath (getcwd ext) (join2 dn fn) abs_output)))
                      files s')
            (walk fs dir)
            (s\<lparr>uploaded_files := (uploaded_files s)(i \<mapsto> join2 s3prefix (basename dir) @ ''/'')\<rparr>))"

definition upload_index_dir ::
  "config \<Rightarrow> filesystem \<Rightarrow> collaborators \<Rightarrow> string \<Rightarrow> string \<Rightarrow> state \<Rightarrow> (error + unit) \<times> state" where
  "upload_index_dir cfg fs ext s3prefix index_dir s =
     (case listdir fs index_dir of
        Inl e \<Rightarrow> (Inl e, s)
      | Inr names \<Rightarrow>
          let fns = filter (\<lambda>fn. \<not> startswith fn ''.'') names
          in if length fns \<noteq> 1 then (Inl AssertionError, s)
             else upload_file cfg fs ext (join2 index_dir (hd fns)) (join2 s3prefix (hd fns)) s)"

definition task_output ::
  "config \<Rightarrow> filesystem \<Rightarrow> collaborators \<Rightarrow> string \<Rightarrow> string \<Rightarrow> string \<Rightarrow> state \<Rightarrow> (error + unit) \<times> state" where
  "task_output cfg fs ext s3prefix links_dir output s =
     (let abs_output = join2 links_dir output
      in if \<not> isdir fs abs_output then (Inl AssertionError, s)
         else case listdir fs abs_output of
                Inl e \<Rightarrow> (Inl e, s)
              | Inr names \<Rightarrow>
                  let output_contents = map (join2 abs_output) (filter (\<lambda>fn. \<not> startswith fn ''.'') names)
                  in if output_contents = [] then (Inl AssertionError, s)
                     else if length output_contents = 1 \<and> isdir fs (hd output_contents)
                               \<and> islink fs (hd output_contents)
                          then upload_directory cfg fs ext s3prefix abs_output (hd output_contents) s
                     else if length output_contents = 1 \<and> isfile fs (hd output_contents)
                          then upload_file cfg fs ext
                                 (join2 abs_output (basename (hd output_contents)))
                                 (join2 s3prefix (basename (hd output_contents))) s
                     else if \<not> list_all (\<lambda>abs_fn. isdigit (basename abs_fn)) output_contents
                          then (Inl AssertionError, s)
                     else for_each (upload_index_dir cfg fs ext s3prefix) output_contents s)"

text \<open>
  The hook itself, after it has let the inputs and the container pass.  \<open>run_id\<close> is the stack
  of run names, the current run last.
\<close>

definition task ::
  "config \<Rightarrow> filesystem \<Rightarrow> collaborators \<Rightarrow> string list \<Rightarrow> string \<Rightarrow> state \<Rightarrow> (error + unit) \<times> state" where
  "task cfg fs ext run_id run_dir s =
     (if uri_prefix cfg = None
      then (Inr (), logging DEBUG ''skipping because MINIWDL__S3_PROGRESSIVE_UPLOAD__URI_PREFIX is unset'' [] s)
      else if run_id = [] then (Inl IndexError, s)
      else if startswith (last run_id) ''download-'' then (Inr (), s)
      else case get_s3_put_prefix cfg of
             Inl e \<Rightarrow> (Inl e, s)
           | Inr s3prefix \<Rightarrow>
               let links_dir = join2 run_dir ''out''
               in (case listdir fs links_dir of
                     Inl e \<Rightarrow> (Inl e, s)
                   | Inr outputs \<Rightarrow> for_each (task_output cfg fs ext s3prefix links_dir) outputs s))"

subsection \<open>Sequences of hook invocations\<close>

text \<open>
  The host calls \<open>CallCache.put\<close>, the uploader and the two hooks many times during a run.  An exception ends
  one invocation only; the dictionaries keep what was written, and the next invocation
  starts from there.
\<close>

datatype event =
    Insert string bindings
  | Upload string string
  | TaskDone "string list" string
  | WorkflowDone "string list" string string bindings

fun run_events :: "config \<Rightarrow> filesystem \<Rightarrow> collaborators \<Rightarrow> event list \<Rightarrow> state \<Rightarrow> state" where
  "run_events cfg fs ext [] s = s"
| "run_events cfg fs ext (Insert key outputs # evs) s =
     run_events cfg fs ext evs (snd (put cfg fs key outputs s))"
| "run_events cfg fs ext (Upload abs_fn s3uri # evs) s =
     run_events cfg fs ext evs (snd (upload_file cfg fs ext abs_fn s3uri s))"
| "run_events cfg fs ext (TaskDone run_id run_dir # evs) s =
     run_events cfg fs ext evs (snd (task cfg fs ext run_id run_dir s))"
| "run_events cfg fs ext (WorkflowDone run_id run_dir name outputs # evs) s =
     run_events cfg fs ext evs (snd (workflow cfg fs ext run_id run_dir name outputs s))"

fun run_uploads :: "config \<Rightarrow> filesystem \<Rightarrow> collaborators \<Rightarrow> (string \<times> string) list \<Rightarrow> state \<Rightarrow> state" where
  "run_uploads cfg fs ext [] s = s"
| "run_uploads cfg fs ext ((abs_fn, s3uri) # us) s =
     run_uploads cfg fs ext us (snd (upload_file cfg fs ext abs_fn s3uri s))"

subsection \<open>Vocabulary of the properties\<close>

text \<open>The identities of the file and directory values of some bindings (those that exist).\<close>

definition path_identities :: "filesystem \<Rightarrow> string list \<Rightarrow> identity list" where
  "path_identities fs ps = concat (map (\<lambda>p. case inode fs p of Inl e \<Rightarrow> [] | Inr i \<Rightarrow> [i]) ps)"

definition identities :: "filesystem \<Rightarrow> bindings \<Rightarrow> identity list" where
  "identities fs outputs = path_identities fs (env_paths outputs)"

text \<open>Every file and directory value of the bindings names an existing file.\<close>

definition exists_path :: "filesystem \<Rightarrow> string \<Rightarrow> bool" where
  "exists_path fs p = (case inode fs p of Inl e \<Rightarrow> False | Inr i \<Rightarrow> True)"

definition all_exist :: "filesystem \<Rightarrow> bindings \<Rightarrow> bool" where
  "all_exist fs outputs = list_all (exists_path fs) (env_paths outputs)"

text \<open>Every file and directory value of the bindings exists and has its identity in the ledger.\<close>

definition uploaded_path :: "filesystem \<Rightarrow> (identity \<rightharpoonup> string) \<Rightarrow> string \<Rightarrow> bool" where
  "uploaded_path fs uploaded p = (case inode fs p of Inl e \<Rightarrow> False | Inr i \<Rightarrow> uploaded i \<noteq> None)"

definition all_uploaded :: "filesystem \<Rightarrow> (identity \<rightharpoonup> string) \<Rightarrow> bindings \<Rightarrow> bool" where
  "all_uploaded fs uploaded outputs = list_all (uploaded_path fs uploaded) (env_paths outputs)"

text \<open>The URI the ledger records for a path (empty when there is none).\<close>

definition ledger_uri :: "filesystem \<Rightarrow> (identity \<rightharpoonup> string) \<Rightarrow> string \<Rightarrow> string" where
  "ledger_uri fs uploaded p =
     (case inode fs p of
        Inl e \<Rightarrow> []
      | Inr i \<Rightarrow> (case uploaded i of None \<Rightarrow> [] | Some uri \<Rightarrow> uri))"

text \<open>
  The traversal seen on the list of paths alone: the callback applied to each path in turn,
  stopping at the first exception.  It is used to reason about the effects of
  \<open>rewrite_env_paths\<close>, which are those of this loop over \<open>env_paths\<close>.
\<close>

fun visit :: "(string \<Rightarrow> 's \<Rightarrow> (error + string) \<times> 's) \<Rightarrow> string list \<Rightarrow> 's \<Rightarrow> (error + string list) \<times> 's" where
  "visit f [] s = (Inr [], s)"
| "visit f (p # ps) s =
     (case f p s of
        (Inl e, s') \<Rightarrow> (Inl e, s')
      | (Inr q, s') \<Rightarrow>
          (case visit f ps s' of
             (Inl e, s'') \<Rightarrow> (Inl e, s'')
           | (Inr qs, s'') \<Rightarrow> (Inr (q # qs), s'')))"

definition outcome :: "(error + 'a) \<times> 's \<Rightarrow> (error + unit) \<times> 's" where
  "outcome x = (case x of (Inl e, s) \<Rightarrow> (Inl e, s) | (Inr r, s) \<Rightarrow> (Inr (), s))"






text \<open>
  The shapes of an output sub-directory.  Its visible names are the names that do not start
  with a dot.  It holds a directory output when its only visible name is a symbolic link to
  a directory, and a file array when every visible name is a number and an index directory
  (a directory in its own right) with exactly one visible name.
\<close>

definition visible :: "filesystem \<Rightarrow> string \<Rightarrow> string list" where
  "visible fs p =
     (case listdir fs p of Inl e \<Rightarrow> [] | Inr names \<Rightarrow> filter (\<lambda>fn. \<not> startswith fn ''.'') names)"







subsection \<open>A small run directory, used to evaluate the functions\<close>

text \<open>
  Two regular files, a second name (hard link) and a symbolic link for the first of them, and
  a name that does not exist.  The configuration enables cache writes with this module as
  the cache backend; the copy tool of \<open>ext_ok\<close> always succeeds, that of \<open>ext_fail\<close> exits
  with status 1.
\<close>

definition fs0 :: filesystem where
  "fs0 = [(''/w/f.txt'', Regular (1, 10)),
          (''/w/g.txt'', Regular (1, 11)),
          (''/w/hard.txt'', Regular (1, 10)),
          (''/w/soft.txt'', Symlink ''/w/f.txt'')]"

definition cfg0 :: config where
  "cfg0 = \<lparr>uri_prefix = Some ''s3://bucket/run1'',
            call_cache_get_uri_prefix = None,
            call_cache_put = True,
            call_cache_backend = ''s3_progressive_upload_call_cache_backend'',
            call_cache_dir = ''/cache''\<rparr>"

definition urlparse_s3 :: "string \<Rightarrow> string \<times> string" where
  "urlparse_s3 uri =
     (let rest = drop 5 uri
      in (takeWhile (\<lambda>c. c \<noteq> CHR ''/'') rest, dropWhile (\<lambda>c. c \<noteq> CHR ''/'') rest))"

definition ext_ok :: collaborators where
  "ext_ok = \<lparr>s3parcp = (\<lambda>fn s3uri. (0, [])),
              download_file = (\<lambda>bucket key. ClientFailure ''404''),
              urlparse = urlparse_s3,
              wdl_output_uri = None,
              getcwd = ''/''\<rparr>"

definition ext_fail :: collaborators where
  "ext_fail = \<lparr>s3parcp = (\<lambda>fn s3uri. (1, ''access denied'')),
                download_file = (\<lambda>bucket key. ClientFailure ''404''),
                urlparse = urlparse_s3,
                wdl_output_uri = None,
              getcwd = ''/''\<rparr>"

definition s0 :: state where
  "s0 = \<lparr>uploaded_files = Map.empty, cached_files = Map.empty, s3_objects = [], s3_tags = [],
          s3parcp_calls = [], local_files = [], log = []\<rparr>"

definition outs_f :: bindings where
  "outs_f = [(''report'', File ''/w/f.txt'')]"

definition outs_fg :: bindings where
  "outs_fg = [(''report'', File ''/w/f.txt''), (''reads'', Compound TArray [File ''/w/g.txt'', Prim ''7''])]"

text \<open>The same configuration with another cache backend.\<close>

definition cfg_other :: config where
  "cfg_other = cfg0\<lparr>call_cache_backend := ''dir''\<rparr>"

text \<open>
  A local cache store that keeps the entry of a key in the file \<open>dir/key.json\<close>, as the base
  class of the host does, and a state whose local store holds an entry for the key \<open>k\<close>.
\<close>

definition dir_get :: "string \<Rightarrow> (string \<times> json_doc) list \<Rightarrow> string \<Rightarrow> bindings \<Rightarrow> unit \<Rightarrow> bindings option" where
  "dir_get dir files key inputs output_types =
     map_option snd (map_of (rev files) (path_join dir [key @ ''.json'']))"

definition s_local :: state where
  "s_local = s0\<lparr>local_files := [(''/cache/k.json'', ([], [(''n'', Prim ''1'')]))]\<rparr>"

text \<open>Object stores that answer a download with the manifest, and with an error other than 404.\<close>

definition ext_hit :: collaborators where
  "ext_hit = ext_ok\<lparr>download_file := (\<lambda>bucket key. Downloaded ([], [(''n'', Prim ''2'')]))\<rparr>"

definition ext_denied :: collaborators where
  "ext_denied = ext_ok\<lparr>download_file := (\<lambda>bucket key. ClientFailure ''403'')\<rparr>"

definition ext_down :: collaborators where
  "ext_down = ext_ok\<lparr>download_file := (\<lambda>bucket key. OtherFailure ''connection refused'')\<rparr>"

definition s_seeded :: state where
  "s_seeded = s0\<lparr>local_files := [(''/cache/run1/cache/k.json.json'', ([], [(''n'', Prim ''3'')]))]\<rparr>"

text \<open>
  A task run directory with a directory output \<open>bam\<close> (a symbolic link to a directory with
  two files) and a file array \<open>reads\<close> (two index directories with one file each).
\<close>

definition fs_task :: filesystem where
  "fs_task =
     [(''/run/out'', Dir (2, 12) [''bam'', ''reads'']),
      (''/run/out/bam'', Dir (2, 2) [''alignments'']),
      (''/run/out/bam/alignments'', Symlink ''/work/alignments''),
      (''/work/alignments'', Dir (2, 3) [''a.bam'', ''b.bam'']),
      (''/run/out/bam/alignments/a.bam'', Regular (2, 4)),
      (''/run/out/bam/alignments/b.bam'', Regular (2, 5)),
      (''/run/out/reads'', Dir (2, 6) [''0'', ''1'']),
      (''/run/out/reads/0'', Dir (2, 7) [''r1.fq'']),
      (''/run/out/reads/0/r1.fq'', Regular (2, 8)),
      (''/run/out/reads/1'', Dir (2, 9) [''r2.fq'']),
      (''/run/out/reads/1/r2.fq'', Regular (2, 10))]"

definition outs_dir :: bindings where
  "outs_dir = [(''alignments'', Directory ''/run/out/bam/alignments'')]"

section \<open>Auxiliary facts\<close>

subsection \<open>The traversal\<close>

lemma rewrite_paths_preserves_aux:
  "(\<forall>p s. g (snd (f p s)) = g s) \<longrightarrow> g (snd (rewrite_paths f v s)) = g s"
  "(\<forall>p s. g (snd (f p s)) = g s) \<longrightarrow> g (snd (rewrite_paths_list f vs s)) = g s"
proof (induction f v s and f vs s rule: rewrite_paths_rewrite_paths_list.induct)
  case (1 f p s)
  show ?case
  proof
    assume a: "\<forall>p s. g (snd (f p s)) = g s"
    from a have "g (snd (f p s)) = g s" by blast
    then show "g (snd (rewrite_paths f (File p) s)) = g s"
      by (cases "f p s") (auto split: sum.splits)
  qed
next
  case (2 f p s)
  show ?case
  proof
    assume a: "\<forall>p s. g (snd (f p s)) = g s"
    from a have "g (snd (f p s)) = g s" by blast
    then show "g (snd (rewrite_paths f (Directory p) s)) = g s"
      by (cases "f p s") (auto split: sum.splits)
  qed
next
  case (3 f x s)
  then show ?case by simp
next
  case (4 f t vs s)
  then show ?case by (cases "rewrite_paths_list f vs s") (auto split: sum.splits)
next
  case (5 f s)
  then show ?case by simp
next
  case (6 f v vs s)
  show ?case
  proof
    assume a: "\<forall>p s. g (snd (f p s)) = g s"
    obtain r s1 where r: "rewrite_paths f v s = (r, s1)" by (cases "rewrite_paths f v s")
    from 6(1) a r have g1: "g s1 = g s" by simp
    show "g (snd (rewrite_paths_list f (v # vs) s)) = g s"
    proof (cases r)
      case (Inl e)
      with r g1 show ?thesis by simp
    next
      case (Inr w)
      obtain r2 s2 where r2: "rewrite_paths_list f vs s1 = (r2, s2)"
        by (cases "rewrite_paths_list f vs s1")
      from 6(2)[OF r[unfolded Inr, symmetric] refl] a r2 have "g s2 = g s1" by simp
      with g1 r Inr r2 show ?thesis by (cases r2) simp_all
    qed
  qed
qed

lemma rewrite_env_paths_preserves:
  "(\<And>p s. g (snd (f p s)) = g s) \<Longrightarrow> g (snd (rewrite_env_paths f env s)) = g s"
proof (induction env arbitrary: s)
  case Nil
  then show ?case by simp
next
  case (Cons b env)
  obtain name v where b: "b = (name, v)" by (cases b)
  obtain r s1 where r: "rewrite_paths f v s = (r, s1)" by (cases "rewrite_paths f v s")
  from Cons.prems rewrite_paths_preserves_aux(1)[of g f v s] r have g1: "g s1 = g s" by simp
  show ?case
  proof (cases r)
    case (Inl e)
    with b r g1 show ?thesis by simp
  next
    case (Inr w)
    obtain r2 s2 where r2: "rewrite_env_paths f env s1 = (r2, s2)"
      by (cases "rewrite_env_paths f env s1")
    from Cons.IH[of s1] Cons.prems r2 have "g s2 = g s1" by simp
    with g1 b r Inr r2 show ?thesis by (cases r2) simp_all
  qed
qed

lemma outcome_simps [simp]:
  "outcome (Inl e, s) = (Inl e, s)"
  "outcome (Inr r, s) = (Inr (), s)"
  by (simp_all add: outcome_def)

lemma visit_append:
  "visit f (ps @ qs) s =
     (case visit f ps s of
        (Inl e, s') \<Rightarrow> (Inl e, s')
      | (Inr xs, s') \<Rightarrow>
          (case visit f qs s' of
             (Inl e, s'') \<Rightarrow> (Inl e, s'')
           | (Inr ys, s'') \<Rightarrow> (Inr (xs @ ys), s'')))"
proof (induction ps arbitrary: s)
  case Nil
  show ?case by (cases "visit f qs s") (auto split: sum.splits)
next
  case (Cons p ps)
  show ?case
  proof (cases "f p s")
    case (Pair r s1)
    show ?thesis
    proof (cases r)
      case (Inl e)
      with Pair show ?thesis by simp
    next
      case (Inr q)
      with Pair Cons.IH[of s1] show ?thesis
        by (auto split: prod.splits sum.splits)
    qed
  qed
qed

lemma outcome_visit_append:
  "outcome (visit f (ps @ qs) s) =
     (case outcome (visit f ps s) of
        (Inl e, s') \<Rightarrow> (Inl e, s')
      | (Inr u, s') \<Rightarrow> outcome (visit f qs s'))"
  by (auto simp: visit_append split: prod.splits sum.splits)

lemma outcome_rewrite_paths:
  "outcome (rewrite_paths f v s) = outcome (visit f (paths_of v) s)"
  "outcome (rewrite_paths_list f vs s) = outcome (visit f (paths_of_list vs) s)"
proof (induction f v s and f vs s rule: rewrite_paths_rewrite_paths_list.induct)
  case (1 f p s)
  show ?case by (cases "f p s") (auto split: sum.splits)
next
  case (2 f p s)
  show ?case by (cases "f p s") (auto split: sum.splits)
next
  case (3 f x s)
  show ?case by simp
next
  case (4 f t vs s)
  then show ?case
    by (cases "rewrite_paths_list f vs s"; cases "visit f (paths_of_list vs) s")
       (auto split: sum.splits)
next
  case (5 f s)
  show ?case by simp
next
  case (6 f v vs s)
  obtain r s1 where r: "rewrite_paths f v s = (r, s1)" by (cases "rewrite_paths f v s")
  show ?case
  proof (cases r)
    case (Inl e)
    with r 6(1) have "outcome (visit f (paths_of v) s) = (Inl e, s1)" by simp
    with r Inl show ?thesis by (simp add: outcome_visit_append)
  next
    case (Inr w)
    with r 6(1) have o: "outcome (visit f (paths_of v) s) = (Inr (), s1)" by simp
    from 6(2)[OF r[unfolded Inr, symmetric] refl]
    have "outcome (rewrite_paths_list f vs s1) = outcome (visit f (paths_of_list vs) s1)" .
    moreover have "outcome (rewrite_paths_list f (v # vs) s) = outcome (rewrite_paths_list f vs s1)"
      using r Inr by (cases "rewrite_paths_list f vs s1") (auto split: sum.splits)
    ultimately show ?thesis using o by (simp add: outcome_visit_append)
  qed
qed

lemma outcome_rewrite_env_paths:
  "outcome (rewrite_env_paths f env s) = outcome (visit f (env_paths env) s)"
proof (induction env arbitrary: s)
  case Nil
  show ?case by simp
next
  case (Cons b env)
  obtain name v where b: "b = (name, v)" by (cases b)
  obtain r s1 where r: "rewrite_paths f v s = (r, s1)" by (cases "rewrite_paths f v s")
  show ?case
  proof (cases r)
    case (Inl e)
    with r outcome_rewrite_paths(1)[of f v s]
    have "outcome (visit f (paths_of v) s) = (Inl e, s1)" by simp
    with r Inl b show ?thesis by (simp add: outcome_visit_append)
  next
    case (Inr w)
    with r outcome_rewrite_paths(1)[of f v s]
    have o: "outcome (visit f (paths_of v) s) = (Inr (), s1)" by simp
    have "outcome (rewrite_env_paths f (b # env) s) = outcome (rewrite_env_paths f env s1)"
      using r Inr b by (cases "rewrite_env_paths f env s1") (auto split: sum.splits)
    with Cons.IH[of s1] o b show ?thesis by (simp add: outcome_visit_append)
  qed
qed

lemma rewrite_paths_pure:
  "(\<forall>p \<in> set (paths_of v). f p s = (Inr (g p), s)) \<longrightarrow> rewrite_paths f v s = (Inr (map_paths g v), s)"
  "(\<forall>p \<in> set (paths_of_list vs). f p s = (Inr (g p), s)) \<longrightarrow> rewrite_paths_list f vs s = (Inr (map_paths_list g vs), s)"
proof (induction f v s and f vs s rule: rewrite_paths_rewrite_paths_list.induct)
  case (6 f v vs s)
  show ?case
  proof
    assume a: "\<forall>p\<in>set (paths_of_list (v # vs)). f p s = (Inr (g p), s)"
    then have 1: "rewrite_paths f v s = (Inr (map_paths g v), s)" using 6(1) by simp
    from 6(2)[OF 1[symmetric] refl] a
    have "rewrite_paths_list f vs s = (Inr (map_paths_list g vs), s)" by simp
    with 1 show "rewrite_paths_list f (v # vs) s = (Inr (map_paths_list g (v # vs)), s)" by simp
  qed
qed simp_all

lemma rewrite_env_paths_pure:
  "(\<forall>p \<in> set (env_paths env). f p s = (Inr (g p), s)) \<Longrightarrow> rewrite_env_paths f env s = (Inr (map_env_paths g env), s)"
proof (induction env)
  case Nil
  show ?case by simp
next
  case (Cons b env)
  obtain name v where b: "b = (name, v)" by (cases b)
  from Cons.prems b have "rewrite_paths f v s = (Inr (map_paths g v), s)"
    using rewrite_paths_pure(1)[of v f s g] by simp
  with Cons b show ?case by simp
qed

subsection \<open>The callbacks and the cache insert\<close>

lemma visit_put_cache:
  "list_all (exists_path fs) ps \<Longrightarrow>
   visit (put_cache fs key outs) ps s =
     (Inr (map (\<lambda>p. []) ps),
      s\<lparr>cached_files := (\<lambda>i. if i \<in> set (path_identities fs ps) then Some (key, outs) else cached_files s i)\<rparr>)"
proof (induction ps arbitrary: s)
  case Nil
  show ?case by (simp add: path_identities_def)
next
  case (Cons p ps)
  from Cons.prems obtain i where i: "inode fs p = Inr i"
    by (auto simp: exists_path_def split: sum.splits)
  let ?s1 = "s\<lparr>cached_files := (cached_files s)(i \<mapsto> (key, outs))\<rparr>"
  have 1: "put_cache fs key outs p s = (Inr [], ?s1)" using i by (simp add: put_cache_def)
  from Cons.prems have "list_all (exists_path fs) ps" by simp
  from Cons.IH[OF this, of ?s1] 1 i show ?case
    by (auto simp: path_identities_def fun_eq_iff)
qed

lemma visit_cache_put_cache_False:
  "visit (cache_put_cache fs up) ps m = (Inr qs, False) \<Longrightarrow> \<not> m \<and> list_all (uploaded_path fs up) ps"
proof (induction ps arbitrary: m qs)
  case Nil
  then show ?case by simp
next
  case (Cons p ps)
  obtain r m1 where r: "cache_put_cache fs up p m = (r, m1)" by (cases "cache_put_cache fs up p m")
  with Cons.prems obtain q where q: "r = Inr q" by (cases r) auto
  with r Cons.prems obtain qs' where v: "visit (cache_put_cache fs up) ps m1 = (Inr qs', False)"
    by (auto split: prod.splits sum.splits)
  from Cons.IH[OF v] have m1: "\<not> m1" and rest: "list_all (uploaded_path fs up) ps" by simp_all
  from r q m1 have "\<not> m \<and> uploaded_path fs up p"
    by (auto simp: cache_put_cache_def uploaded_path_def split: if_splits sum.splits option.splits)
  with rest show ?case by simp
qed

lemma visit_cache_put_cache_exist:
  "list_all (exists_path fs) ps \<Longrightarrow>
   \<exists>qs. visit (cache_put_cache fs up) ps m = (Inr qs, m \<or> \<not> list_all (uploaded_path fs up) ps)"
proof (induction ps arbitrary: m)
  case Nil
  show ?case by simp
next
  case (Cons p ps)
  from Cons.prems obtain i where i: "inode fs p = Inr i"
    by (auto simp: exists_path_def split: sum.splits)
  from Cons.prems have ex: "list_all (exists_path fs) ps" by simp
  have 1: "cache_put_cache fs up p m = (Inr (if m \<or> up i = None then [] else the (up i)), m \<or> \<not> uploaded_path fs up p)"
    using i by (auto simp: cache_put_cache_def uploaded_path_def split: option.splits)
  from Cons.IH[OF ex, of "m \<or> \<not> uploaded_path fs up p"] obtain qs where
    "visit (cache_put_cache fs up) ps (m \<or> \<not> uploaded_path fs up p) =
       (Inr qs, (m \<or> \<not> uploaded_path fs up p) \<or> \<not> list_all (uploaded_path fs up) ps)" by blast
  with 1 show ?case by auto
qed

lemma cache_put_cache_pure:
  "uploaded_path fs up p \<Longrightarrow> cache_put_cache fs up p False = (Inr (ledger_uri fs up p), False)"
  by (auto simp: cache_put_cache_def uploaded_path_def ledger_uri_def split: sum.splits option.splits)

lemma rewrite_cache_put_cache_uploaded:
  assumes "all_uploaded fs up outs"
  shows "rewrite_env_paths (cache_put_cache fs up) outs False = (Inr (map_env_paths (ledger_uri fs up) outs), False)"
proof (rule rewrite_env_paths_pure)
  show "\<forall>p\<in>set (env_paths outs). cache_put_cache fs up p False = (Inr (ledger_uri fs up p), False)"
    using assms by (auto simp: all_uploaded_def list_all_iff cache_put_cache_pure)
qed

lemma rewrite_cache_put_cache_missing:
  assumes "\<not> all_uploaded fs up outs"
  shows "rewrite_env_paths (cache_put_cache fs up) outs False \<noteq> (Inr r, False)"
proof
  assume a: "rewrite_env_paths (cache_put_cache fs up) outs False = (Inr r, False)"
  then have "outcome (visit (cache_put_cache fs up) (env_paths outs) False) = (Inr (), False)"
    using outcome_rewrite_env_paths[of "cache_put_cache fs up" outs False] by simp
  then obtain qs where "visit (cache_put_cache fs up) (env_paths outs) False = (Inr qs, False)"
    by (cases "visit (cache_put_cache fs up) (env_paths outs) False") (auto simp: outcome_def split: sum.splits)
  from visit_cache_put_cache_False[OF this] assms show False by (simp add: all_uploaded_def)
qed

lemma cache_put_silent:
  "\<not> all_uploaded fs (uploaded_files s) outs \<Longrightarrow> snd (cache_put cfg fs key outs s) = s"
  using rewrite_cache_put_cache_missing[of fs "uploaded_files s" outs]
  by (cases "rewrite_env_paths (cache_put_cache fs (uploaded_files s)) outs False")
     (auto simp: cache_put_def Let_def split: sum.splits)

lemma cache_put_returns:
  assumes "all_exist fs outs" "\<not> all_uploaded fs (uploaded_files s) outs"
  shows "cache_put cfg fs key outs s = (Inr (), s)"
proof -
  from visit_cache_put_cache_exist[OF assms(1)[unfolded all_exist_def], of "uploaded_files s" False] assms(2)
  obtain qs where "visit (cache_put_cache fs (uploaded_files s)) (env_paths outs) False = (Inr qs, True)"
    by (auto simp: all_uploaded_def)
  then have "outcome (rewrite_env_paths (cache_put_cache fs (uploaded_files s)) outs False) = (Inr (), True)"
    by (simp add: outcome_rewrite_env_paths)
  then obtain r where "rewrite_env_paths (cache_put_cache fs (uploaded_files s)) outs False = (Inr r, True)"
    by (cases "rewrite_env_paths (cache_put_cache fs (uploaded_files s)) outs False")
       (auto simp: outcome_def split: sum.splits)
  then show ?thesis by (simp add: cache_put_def)
qed

lemma cache_put_disabled:
  "\<not> (call_cache_put cfg \<and> call_cache_backend cfg = backend_marker) \<Longrightarrow> cache_put cfg fs key outs s = (Inr (), s)"
  by (simp add: cache_put_def)

lemma startswith_append: "startswith a p \<Longrightarrow> startswith (a @ b) p"
proof -
  assume a: "startswith a p"
  then have "length (take (length p) a) = length p" by (simp add: startswith_def)
  then have "length p \<le> length a" by simp
  with a show ?thesis by (simp add: startswith_def)
qed

lemma startswith_join2: "startswith a p \<Longrightarrow> \<not> startswith b ''/'' \<Longrightarrow> startswith (join2 a b) p"
  by (auto simp: join2_def startswith_append)

lemma startswith_cache_uri:
  assumes "startswith s3prefix ''s3://''" "\<not> startswith key ''/''"
  shows "startswith (cache_uri s3prefix key) ''s3://''"
proof -
  have 1: "\<not> startswith ''cache'' ''/''" by (simp add: startswith_def)
  have 2: "\<not> startswith (key @ ''.json'') ''/''" using assms(2)
    by (cases key) (auto simp: startswith_def)
  show ?thesis unfolding cache_uri_def path_join_def
    using startswith_join2[OF startswith_join2[OF assms(1) 1] 2] by simp
qed

lemma cache_put_publishes:
  assumes "call_cache_put cfg" "call_cache_backend cfg = backend_marker"
    and "uri_prefix cfg = Some s3prefix" "startswith s3prefix ''s3://''" "\<not> startswith key ''/''"
    and "all_uploaded fs (uploaded_files s) outs"
  shows "cache_put cfg fs key outs s =
           (Inr (),
            logging INFO ''call cache insert'' [(''cache_file'', Text (cache_uri s3prefix key))]
              (s\<lparr>s3_objects := s3_objects s @ [(cache_uri s3prefix key, ([], map_env_paths (ledger_uri fs (uploaded_files s)) outs))],
                 s3_tags := s3_tags s @ [(cache_uri s3prefix key, ''swipe_temporary'', ''true'')]\<rparr>))"
  using assms startswith_cache_uri[OF assms(4,5)]
  by (simp add: cache_put_def rewrite_cache_put_cache_uploaded get_s3_put_prefix_def Let_def)

subsection \<open>The dictionaries under insert and upload\<close>

lemma cache_put_cached_files: "cached_files (snd (cache_put cfg fs key outs s)) = cached_files s"
  by (cases "rewrite_env_paths (cache_put_cache fs (uploaded_files s)) outs False")
     (auto simp: cache_put_def Let_def logging_def split: sum.splits)

lemma cache_put_uploaded_files: "uploaded_files (snd (cache_put cfg fs key outs s)) = uploaded_files s"
  by (cases "rewrite_env_paths (cache_put_cache fs (uploaded_files s)) outs False")
     (auto simp: cache_put_def Let_def logging_def split: sum.splits)


lemma put_cache_uploaded_files: "uploaded_files (snd (put_cache fs key outs p s)) = uploaded_files s"
  by (simp add: put_cache_def split: sum.splits)


lemma put_uploaded_files: "uploaded_files (snd (put cfg fs key outs s)) = uploaded_files s"
proof (cases "call_cache_put cfg")
  case False
  then show ?thesis by (simp add: put_def)
next
  case True
  obtain r s1 where r: "rewrite_env_paths (put_cache fs key outs) outs s = (r, s1)"
    by (cases "rewrite_env_paths (put_cache fs key outs) outs s")
  have "uploaded_files (snd (rewrite_env_paths (put_cache fs key outs) outs s)) = uploaded_files s"
    by (rule rewrite_env_paths_preserves) (rule put_cache_uploaded_files)
  with r have "uploaded_files s1 = uploaded_files s" by simp
  with r True show ?thesis
    by (cases r) (simp_all add: put_def cache_put_uploaded_files)
qed


lemma rewrite_put_cache_exist:
  assumes "list_all (exists_path fs) (env_paths env)"
  shows "\<exists>r. rewrite_env_paths (put_cache fs key outs) env s =
           (Inr r, s\<lparr>cached_files := (\<lambda>i. if i \<in> set (path_identities fs (env_paths env)) then Some (key, outs)
                                          else cached_files s i)\<rparr>)"
proof -
  have "outcome (rewrite_env_paths (put_cache fs key outs) env s) =
          (Inr (), s\<lparr>cached_files := (\<lambda>i. if i \<in> set (path_identities fs (env_paths env)) then Some (key, outs)
                                          else cached_files s i)\<rparr>)"
    by (simp add: outcome_rewrite_env_paths visit_put_cache[OF assms])
  then show ?thesis
    by (cases "rewrite_env_paths (put_cache fs key outs) env s") (auto simp: outcome_def split: sum.splits)
qed

lemma put_cached_files:
  assumes "call_cache_put cfg" "all_exist fs outs"
  shows "cached_files (snd (put cfg fs key outs s)) =
           (\<lambda>i. if i \<in> set (identities fs outs) then Some (key, outs) else cached_files s i)"
proof -
  from rewrite_put_cache_exist[OF assms(2)[unfolded all_exist_def], of key outs s]
  obtain r where "rewrite_env_paths (put_cache fs key outs) outs s =
           (Inr r, s\<lparr>cached_files := (\<lambda>i. if i \<in> set (path_identities fs (env_paths outs)) then Some (key, outs)
                                          else cached_files s i)\<rparr>)" by blast
  with assms(1) show ?thesis
    by (simp add: put_def cache_put_cached_files identities_def)
qed

lemma s3cp_fields:
  "uploaded_files (snd (s3cp ext fn uri s)) = uploaded_files s"
  "cached_files (snd (s3cp ext fn uri s)) = cached_files s"
  "s3_objects (snd (s3cp ext fn uri s)) = s3_objects s"
  by (simp_all add: s3cp_def Let_def logging_def split: prod.splits)

lemma upload_file_cached_files:
  "cached_files (snd (upload_file cfg fs ext abs_fn s3uri s)) = cached_files s"
proof -
  obtain r s1 where r: "s3cp ext abs_fn s3uri s = (r, s1)" by (cases "s3cp ext abs_fn s3uri s")
  with s3cp_fields(2)[of ext abs_fn s3uri s] have c1: "cached_files s1 = cached_files s" by simp
  show ?thesis
  proof (cases r)
    case (Inl e)
    with r c1 show ?thesis by (simp add: upload_file_def)
  next
    case (Inr u)
    show ?thesis
    proof (cases "inode fs abs_fn")
      case (Inl e)
      with r Inr c1 show ?thesis by (simp add: upload_file_def)
    next
      case i: (Inr i)
      let ?s2 = "s1\<lparr>uploaded_files := (uploaded_files s1)(i \<mapsto> s3uri)\<rparr>"
      show ?thesis
      proof (cases "cached_files s1 i")
        case None
        with r Inr i c1 show ?thesis by (simp add: upload_file_def logging_def)
      next
        case (Some e)
        obtain key outs where e: "e = (key, outs)" by (cases e)
        obtain r3 s3 where r3: "cache_put cfg fs key outs ?s2 = (r3, s3)"
          by (cases "cache_put cfg fs key outs ?s2")
        with cache_put_cached_files[of cfg fs key outs ?s2] have "cached_files s3 = cached_files s1" by simp
        with r Inr i Some e r3 c1 show ?thesis
          by (cases r3) (simp_all add: upload_file_def logging_def)
      qed
    qed
  qed
qed

lemma run_uploads_cached_files:
  "cached_files (run_uploads cfg fs ext us s) = cached_files s"
  by (induction us arbitrary: s) (auto simp: upload_file_cached_files)

subsection \<open>Evaluation and the upload of one file\<close>

lemmas fs_eval = inode_def realpath_def realpath_from.simps stat_def
lemmas ex_defs = fs0_def cfg0_def cfg_other_def ext_ok_def ext_fail_def s0_def outs_f_def outs_fg_def
  ext_hit_def ext_denied_def ext_down_def s_local_def s_seeded_def dir_get_def urlparse_s3_def
lemmas op_defs = upload_file_def s3cp_def cmdline_def logging_def put_def put_cache_def cache_put_def cache_put_cache_def
        get_s3_put_prefix_def cache_uri_def path_join_def join2_def startswith_def endswith_def backend_marker_def

lemma s3cp_ok:
  "fst (s3parcp ext fn uri) = 0 \<Longrightarrow>
   s3cp ext fn uri s = (Inr (), (logging DEBUG (cmdline fn uri) [] s)\<lparr>s3parcp_calls := s3parcp_calls s @ [(fn, uri)]\<rparr>)"
  by (cases "s3parcp ext fn uri") (simp add: s3cp_def Let_def logging_def)

lemma s3cp_failed:
  "fst (s3parcp ext fn uri) \<noteq> 0 \<Longrightarrow>
   fst (s3cp ext fn uri s) = Inl (RuntimeError (''failed: '' @ cmdline fn uri))"
  by (cases "s3parcp ext fn uri") (simp add: s3cp_def Let_def)

lemma upload_file_recorded:
  assumes "fst (s3parcp ext abs_fn s3uri) = 0" "inode fs abs_fn = Inr i"
  shows "uploaded_files (snd (upload_file cfg fs ext abs_fn s3uri s)) = (uploaded_files s)(i \<mapsto> s3uri)"
proof -
  obtain s1 where 1: "s3cp ext abs_fn s3uri s = (Inr (), s1)" using s3cp_ok[OF assms(1)] by blast
  let ?s1 = s1
  let ?s2 = "?s1\<lparr>uploaded_files := (uploaded_files ?s1)(i \<mapsto> s3uri)\<rparr>"
  have u1: "uploaded_files ?s1 = uploaded_files s" using s3cp_fields(1)[of ext abs_fn s3uri s] 1 by simp
  show ?thesis
  proof (cases "cached_files ?s1 i")
    case None
    then have "upload_file cfg fs ext abs_fn s3uri s =
        (Inr (), logging INFO ''task output uploaded'' [(''file'', Text abs_fn), (''uri'', Text s3uri)] ?s2)"
      unfolding upload_file_def using assms(2) by (simp add: 1 Let_def)
    then show ?thesis using u1 by (simp add: logging_def)
  next
    case (Some e)
    obtain key outs where e: "e = (key, outs)" by (cases e)
    obtain r3 s3 where r3: "cache_put cfg fs key outs ?s2 = (r3, s3)"
      by (cases "cache_put cfg fs key outs ?s2")
    with cache_put_uploaded_files[of cfg fs key outs ?s2] have u3: "uploaded_files s3 = uploaded_files ?s2" by simp
    have "snd (upload_file cfg fs ext abs_fn s3uri s) = s3 \<or>
          snd (upload_file cfg fs ext abs_fn s3uri s) =
             logging INFO ''task output uploaded'' [(''file'', Text abs_fn), (''uri'', Text s3uri)] s3"
      unfolding upload_file_def using assms(2) Some e r3 by (cases r3) (simp_all add: 1 Let_def)
    then show ?thesis using u3 u1 by (auto simp: logging_def)
  qed
qed

lemma upload_file_s3_objects:
  assumes "fst (s3parcp ext abs_fn s3uri) = 0" "inode fs abs_fn = Inr i" "cached_files s i = Some (key, outs)"
  shows "s3_objects (snd (upload_file cfg fs ext abs_fn s3uri s)) =
         s3_objects (snd (cache_put cfg fs key outs
            ((snd (s3cp ext abs_fn s3uri s))\<lparr>uploaded_files := (uploaded_files s)(i \<mapsto> s3uri)\<rparr>)))"
proof -
  obtain s1 where 1: "s3cp ext abs_fn s3uri s = (Inr (), s1)" using s3cp_ok[OF assms(1)] by blast
  let ?s1 = s1
  let ?s2 = "?s1\<lparr>uploaded_files := (uploaded_files s)(i \<mapsto> s3uri)\<rparr>"
  have u1: "uploaded_files ?s1 = uploaded_files s" using s3cp_fields(1)[of ext abs_fn s3uri s] 1 by simp
  have c1: "cached_files ?s1 = cached_files s" using s3cp_fields(2)[of ext abs_fn s3uri s] 1 by simp
  obtain r3 s3 where r3: "cache_put cfg fs key outs ?s2 = (r3, s3)"
    by (cases "cache_put cfg fs key outs ?s2")
  have "snd (upload_file cfg fs ext abs_fn s3uri s) = s3 \<or>
        snd (upload_file cfg fs ext abs_fn s3uri s) =
           logging INFO ''task output uploaded'' [(''file'', Text abs_fn), (''uri'', Text s3uri)] s3"
    unfolding upload_file_def using assms(2,3) r3 c1 u1 by (cases r3) (simp_all add: 1 Let_def)
  moreover have "snd (s3cp ext abs_fn s3uri s) = s1" using 1 by simp
  ultimately show ?thesis using r3 by (auto simp: logging_def)
qed


subsection \<open>Manifests under another backend\<close>















subsection \<open>A deferred insert\<close>

lemma put_deferred:
  assumes "call_cache_put cfg" "all_exist fs outs" "\<not> all_uploaded fs (uploaded_files s) outs"
  shows "fst (put cfg fs key outs s) = Inr ()" and "s3_objects (snd (put cfg fs key outs s)) = s3_objects s"
proof -
  from rewrite_put_cache_exist[OF assms(2)[unfolded all_exist_def], of key outs s] obtain r s1 where
    r: "rewrite_env_paths (put_cache fs key outs) outs s = (Inr r, s1)"
    and s1: "s1 = s\<lparr>cached_files := (\<lambda>i. if i \<in> set (path_identities fs (env_paths outs)) then Some (key, outs)
                                          else cached_files s i)\<rparr>" by blast
  have u: "\<not> all_uploaded fs (uploaded_files s1) outs" using assms(3) s1 by simp
  have "put cfg fs key outs s = cache_put cfg fs key outs s1"
    using assms(1) r by (simp add: put_def)
  with cache_put_returns[OF assms(2) u, of cfg key] s1
  show "fst (put cfg fs key outs s) = Inr ()" and "s3_objects (snd (put cfg fs key outs s)) = s3_objects s"
    by simp_all
qed

lemma upload_incomplete_silent:
  assumes "inode fs abs_fn = Inr i" "cached_files t i = Some (key, outs)"
    and "\<not> all_uploaded fs ((uploaded_files t)(i \<mapsto> s3uri)) outs"
  shows "s3_objects (snd (upload_file cfg fs ext abs_fn s3uri t)) = s3_objects t"
proof (cases "fst (s3parcp ext abs_fn s3uri) = 0")
  case False
  then show ?thesis
    by (cases "s3parcp ext abs_fn s3uri") (simp add: upload_file_def s3cp_def Let_def logging_def)
next
  case True
  let ?t2 = "(snd (s3cp ext abs_fn s3uri t))\<lparr>uploaded_files := (uploaded_files t)(i \<mapsto> s3uri)\<rparr>"
  have "\<not> all_uploaded fs (uploaded_files ?t2) outs" using assms(3) by simp
  from cache_put_silent[OF this, of cfg key] upload_file_s3_objects[OF True assms(1,2), of cfg]
  show ?thesis by (simp add: s3cp_fields)
qed

lemma upload_complete_publishes:
  assumes "call_cache_put cfg" "call_cache_backend cfg = backend_marker"
    and "uri_prefix cfg = Some s3prefix" "startswith s3prefix ''s3://''" "\<not> startswith key ''/''"
    and "fst (s3parcp ext abs_fn s3uri) = 0" "inode fs abs_fn = Inr i" "cached_files t i = Some (key, outs)"
    and "all_uploaded fs ((uploaded_files t)(i \<mapsto> s3uri)) outs"
  shows "s3_objects (snd (upload_file cfg fs ext abs_fn s3uri t)) =
           s3_objects t @ [(cache_uri s3prefix key, ([], map_env_paths (ledger_uri fs ((uploaded_files t)(i \<mapsto> s3uri))) outs))]"
proof -
  let ?t2 = "(snd (s3cp ext abs_fn s3uri t))\<lparr>uploaded_files := (uploaded_files t)(i \<mapsto> s3uri)\<rparr>"
  have u: "all_uploaded fs (uploaded_files ?t2) outs" using assms(9) by simp
  from cache_put_publishes[OF assms(1-5) u] upload_file_s3_objects[OF assms(6-8), of cfg]
  show ?thesis by (simp add: s3cp_fields logging_def)
qed

subsection \<open>The cache lookup in the example configuration\<close>


subsection \<open>Links and identities\<close>





subsection \<open>The upload loops of the task hook\<close>



























subsection \<open>The example run directory\<close>

lemmas dir_eval = listdir_def isdir_def isfile_def islink_def valid_name_def basename_def isdigit_def visible_def
lemmas path_eval = relpath_def abspath_def normpath_def norm_step_def intercalate_def path_join_def join2_def
  startswith_def endswith_def

lemma walk_alignments:
  "walk fs_task ''/run/out/bam/alignments'' = [(''/run/out/bam/alignments'', [], [''a.bam'', ''b.bam''])]"
  by (subst walk.simps) (simp add: dir_eval fs_eval fs_task_def join2_def startswith_def endswith_def)


lemma relpath_example:
  "join2 ''/run/out/bam/alignments'' ''a.bam'' = ''/run/out/bam/alignments/a.bam''"
  "join2 ''/run/out/bam/alignments'' ''b.bam'' = ''/run/out/bam/alignments/b.bam''"
  "relpath ''/'' ''/run/out/bam/alignments/a.bam'' ''/run/out/bam'' = ''alignments/a.bam''"
  "relpath ''/'' ''/run/out/bam/alignments/b.bam'' ''/run/out/bam'' = ''alignments/b.bam''"
  by (simp_all add: path_eval)



section \<open>The claims\<close>

subsection \<open>C1: a deferred cache entry\<close>

text \<open>
  C1, as amended.  Cache writes are enabled under the marker of this backend, the prefix is
  an S3 URI, and every file and directory value of the bindings exists.  An insert whose
  bindings reference an identity that is not in the ledger returns without publishing, and
  maps every identity it references to \<open>(key, outputs)\<close> in the registry; uploads leave
  these entries in place.  From then on, in any state whose registry maps the identity
  \<open>i\<close> to that entry, the upload of a file with identity \<open>i\<close> publishes nothing when some
  referenced identity is still missing from the ledger afterwards, and publishes exactly one
  manifest, at \<open>prefix/cache/key.json\<close> and with every path replaced by its ledger URI, when
  the record of \<open>i\<close> completes the ledger for the bindings.  No order of the uploads is
  assumed.
\<close>

theorem deferred_insert_published_on_completion:
  assumes "call_cache_put cfg" and "call_cache_backend cfg = backend_marker"
    and "uri_prefix cfg = Some s3prefix" and "startswith s3prefix ''s3://''" and "\<not> startswith key ''/''"
    and "all_exist fs outputs"
    and "\<not> all_uploaded fs (uploaded_files s) outputs"
  shows "fst (put cfg fs key outputs s) = Inr () \<and>
         s3_objects (snd (put cfg fs key outputs s)) = s3_objects s \<and>
         (\<forall>i \<in> set (identities fs outputs).
            cached_files (run_uploads cfg fs ext us (snd (put cfg fs key outputs s))) i = Some (key, outputs)) \<and>
         (\<forall>t abs_fn s3uri i.
            inode fs abs_fn = Inr i \<and> cached_files t i = Some (key, outputs) \<and>
            \<not> all_uploaded fs ((uploaded_files t)(i \<mapsto> s3uri)) outputs \<longrightarrow>
              s3_objects (snd (upload_file cfg fs ext abs_fn s3uri t)) = s3_objects t) \<and>
         (\<forall>t abs_fn s3uri i.
            fst (s3parcp ext abs_fn s3uri) = 0 \<and> inode fs abs_fn = Inr i \<and>
            cached_files t i = Some (key, outputs) \<and>
            all_uploaded fs ((uploaded_files t)(i \<mapsto> s3uri)) outputs \<longrightarrow>
              s3_objects (snd (upload_file cfg fs ext abs_fn s3uri t)) =
                s3_objects t @ [(cache_uri s3prefix key,
                                 ([], map_env_paths (ledger_uri fs ((uploaded_files t)(i \<mapsto> s3uri))) outputs))])"
proof (intro conjI)
  show "fst (put cfg fs key outputs s) = Inr ()"
    by (rule put_deferred(1)[OF assms(1,6,7)])
  show "s3_objects (snd (put cfg fs key outputs s)) = s3_objects s"
    by (rule put_deferred(2)[OF assms(1,6,7)])
  show "\<forall>i \<in> set (identities fs outputs).
            cached_files (run_uploads cfg fs ext us (snd (put cfg fs key outputs s))) i = Some (key, outputs)"
    by (simp add: run_uploads_cached_files put_cached_files[OF assms(1,6)])
  show "\<forall>t abs_fn s3uri i.
            inode fs abs_fn = Inr i \<and> cached_files t i = Some (key, outputs) \<and>
            \<not> all_uploaded fs ((uploaded_files t)(i \<mapsto> s3uri)) outputs \<longrightarrow>
              s3_objects (snd (upload_file cfg fs ext abs_fn s3uri t)) = s3_objects t"
    using upload_incomplete_silent by blast
  show "\<forall>t abs_fn s3uri i.
            fst (s3parcp ext abs_fn s3uri) = 0 \<and> inode fs abs_fn = Inr i \<and>
            cached_files t i = Some (key, outputs) \<and>
            all_uploaded fs ((uploaded_files t)(i \<mapsto> s3uri)) outputs \<longrightarrow>
              s3_objects (snd (upload_file cfg fs ext abs_fn s3uri t)) =
                s3_objects t @ [(cache_uri s3prefix key,
                                 ([], map_env_paths (ledger_uri fs ((uploaded_files t)(i \<mapsto> s3uri))) outputs))]"
    using upload_complete_publishes[OF assms(1-5)] by blast
qed

text \<open>
  The theorem at bindings with two files, none uploaded: the insert publishes nothing, the
  upload of the second file publishes nothing, and the upload of the first file after it
  publishes the manifest.
\<close>

theorem deferred_insert_published_on_completion_witness:
  "call_cache_put cfg0 \<and> call_cache_backend cfg0 = backend_marker \<and>
   uri_prefix cfg0 = Some ''s3://bucket/run1'' \<and> startswith ''s3://bucket/run1'' ''s3://'' \<and>
   \<not> startswith ''k'' ''/'' \<and> all_exist fs0 outs_fg \<and> \<not> all_uploaded fs0 (uploaded_files s0) outs_fg \<and>
   s3_objects (snd (put cfg0 fs0 ''k'' outs_fg s0)) = s3_objects s0 \<and>
   s3_objects (snd (upload_file cfg0 fs0 ext_ok ''/w/g.txt'' ''s3://bucket/run1/g.txt''
                      (snd (put cfg0 fs0 ''k'' outs_fg s0))))
     = s3_objects (snd (put cfg0 fs0 ''k'' outs_fg s0)) \<and>
   s3_objects (snd (upload_file cfg0 fs0 ext_ok ''/w/f.txt'' ''s3://bucket/run1/f.txt''
                      (run_uploads cfg0 fs0 ext_ok [(''/w/g.txt'', ''s3://bucket/run1/g.txt'')]
                         (snd (put cfg0 fs0 ''k'' outs_fg s0)))))
     = s3_objects (run_uploads cfg0 fs0 ext_ok [(''/w/g.txt'', ''s3://bucket/run1/g.txt'')]
                         (snd (put cfg0 fs0 ''k'' outs_fg s0)))
       @ [(''s3://bucket/run1/cache/k.json'',
           ([], [(''report'', File ''s3://bucket/run1/f.txt''),
                 (''reads'', Compound TArray [File ''s3://bucket/run1/g.txt'', Prim ''7''])]))]"
proof -
  let ?s1 = "snd (put cfg0 fs0 ''k'' outs_fg s0)"
  let ?t = "run_uploads cfg0 fs0 ext_ok [(''/w/g.txt'', ''s3://bucket/run1/g.txt'')] ?s1"
  have h1: "call_cache_put cfg0" and h2: "call_cache_backend cfg0 = backend_marker"
    and h3: "uri_prefix cfg0 = Some ''s3://bucket/run1''"
    by (simp_all add: cfg0_def backend_marker_def)
  have h4: "startswith ''s3://bucket/run1'' ''s3://''" and h5: "\<not> startswith ''k'' ''/''"
    by (simp_all add: startswith_def)
  have h6: "all_exist fs0 outs_fg" by (simp add: all_exist_def exists_path_def fs_eval ex_defs)
  have h7: "\<not> all_uploaded fs0 (uploaded_files s0) outs_fg"
    by (simp add: all_uploaded_def uploaded_path_def fs_eval ex_defs)
  note th = deferred_insert_published_on_completion[OF h1 h2 h3 h4 h5 h6 h7]
  have ids: "(1, 10) \<in> set (identities fs0 outs_fg)" "(1, 11) \<in> set (identities fs0 outs_fg)"
    by (simp_all add: identities_def path_identities_def fs_eval ex_defs)
  have f: "inode fs0 ''/w/f.txt'' = Inr (1, 10)" and g: "inode fs0 ''/w/g.txt'' = Inr (1, 11)"
    by (simp_all add: fs_eval fs0_def)
  have ok: "fst (s3parcp ext_ok ''/w/f.txt'' ''s3://bucket/run1/f.txt'') = 0"
    by (simp add: ext_ok_def)
  have u1: "uploaded_files ?s1 = Map.empty"
    by (simp add: put_uploaded_files s0_def)
  have ut: "uploaded_files ?t = [(1, 11) \<mapsto> ''s3://bucket/run1/g.txt'']"
    using upload_file_recorded[of ext_ok "''/w/g.txt''" "''s3://bucket/run1/g.txt''" fs0 "(1, 11)" cfg0 ?s1] g u1
    by (simp add: ext_ok_def)
  have r1: "cached_files ?s1 (1, 11) = Some (''k'', outs_fg)"
    using th[of ext_ok "[]"] ids by simp
  have rt: "cached_files ?t (1, 10) = Some (''k'', outs_fg)"
    using th[of ext_ok "[(''/w/g.txt'', ''s3://bucket/run1/g.txt'')]"] ids by blast
  have n1: "\<not> all_uploaded fs0 ((uploaded_files ?s1)((1, 11) \<mapsto> ''s3://bucket/run1/g.txt'')) outs_fg"
    unfolding u1 by (simp add: all_uploaded_def uploaded_path_def fs_eval ex_defs)
  have a2: "all_uploaded fs0 ((uploaded_files ?t)((1, 10) \<mapsto> ''s3://bucket/run1/f.txt'')) outs_fg"
    unfolding ut by (simp add: all_uploaded_def uploaded_path_def fs_eval ex_defs)
  have uri: "cache_uri ''s3://bucket/run1'' ''k'' = ''s3://bucket/run1/cache/k.json''"
    by (simp add: cache_uri_def path_join_def join2_def startswith_def endswith_def)
  have body: "map_env_paths (ledger_uri fs0 ((uploaded_files ?t)((1, 10) \<mapsto> ''s3://bucket/run1/f.txt''))) outs_fg
      = [(''report'', File ''s3://bucket/run1/f.txt''),
         (''reads'', Compound TArray [File ''s3://bucket/run1/g.txt'', Prim ''7''])]"
    unfolding ut by (simp add: ledger_uri_def fs_eval ex_defs)
  from th[of ext_ok "[]"] have c2: "s3_objects ?s1 = s3_objects s0" by blast
  from th[of ext_ok "[]"] g r1 n1
  have c4: "s3_objects (snd (upload_file cfg0 fs0 ext_ok ''/w/g.txt'' ''s3://bucket/run1/g.txt'' ?s1)) = s3_objects ?s1"
    by blast
  from th[of ext_ok "[]"] ok f rt a2
  have c5: "s3_objects (snd (upload_file cfg0 fs0 ext_ok ''/w/f.txt'' ''s3://bucket/run1/f.txt'' ?t))
        = s3_objects ?t @ [(cache_uri ''s3://bucket/run1'' ''k'',
              ([], map_env_paths (ledger_uri fs0 ((uploaded_files ?t)((1, 10) \<mapsto> ''s3://bucket/run1/f.txt''))) outs_fg))]"
    by blast
  from h1 h2 h3 h4 h5 h6 h7 c2 c4 c5[unfolded uri body] show ?thesis by blast
qed

text \<open>
  C1 as stated fails when a later insert references the same file: the registry keeps one
  entry per identity, so the upload of \<open>/w/f.txt\<close>, the only file the insert under \<open>kA\<close>
  was waiting for, finds the entry of \<open>kB\<close>, which still misses a file, and nothing is
  published.
\<close>

theorem deferred_insert_published_counterexample:
  "\<not> all_uploaded fs0 (uploaded_files s0) outs_f \<and>
   all_uploaded fs0 (uploaded_files (run_events cfg0 fs0 ext_ok
       [Insert ''kA'' outs_f, Insert ''kB'' outs_fg, Upload ''/w/f.txt'' ''s3://bucket/run1/f.txt''] s0)) outs_f \<and>
   s3_objects (run_events cfg0 fs0 ext_ok
       [Insert ''kA'' outs_f, Insert ''kB'' outs_fg, Upload ''/w/f.txt'' ''s3://bucket/run1/f.txt''] s0) = []"
  by (simp add: all_uploaded_def uploaded_path_def op_defs fs_eval ex_defs Let_def)

text \<open>
  The identity of a directory output is written to the ledger by the task hook itself, not
  by \<open>upload_file\<close>, and that write does not consult the registry: an insert that waits for
  a directory only is not published when the hook records the directory.
\<close>

lemma directory_record_skips_registry:
  "cached_files (snd (put cfg0 fs_task ''kD'' outs_dir s0)) (2, 3) = Some (''kD'', outs_dir) \<and>
   \<not> all_uploaded fs_task (uploaded_files (snd (put cfg0 fs_task ''kD'' outs_dir s0))) outs_dir \<and>
   all_uploaded fs_task
     (uploaded_files (run_events cfg0 fs_task ext_ok
        [Insert ''kD'' outs_dir, TaskDone [''run'', ''call-x''] ''/run''] s0)) outs_dir \<and>
   s3_objects (run_events cfg0 fs_task ext_ok
        [Insert ''kD'' outs_dir, TaskDone [''run'', ''call-x''] ''/run''] s0) = []"
  by (simp add: all_uploaded_def uploaded_path_def task_def task_output_def upload_directory_def
        upload_index_dir_def walk_alignments[unfolded fs_task_def] relpath_example op_defs dir_eval fs_eval
        fs_task_def cfg0_def ext_ok_def s0_def outs_dir_def Let_def)

subsection \<open>C2: what an upload does to the pending registry\<close>

text \<open>
  C2, as amended.  When the uploader has copied a file whose identity \<open>i\<close> has a pending entry
  \<open>(key, outputs)\<close> in the registry, it records \<open>i\<close> in the ledger, looks the entry up and hands
  it to \<open>cache_put\<close> on the state that already holds the new ledger entry; the entry is not
  removed: the registry after the upload is the registry before it.
\<close>

theorem upload_keeps_pending_entry:
  assumes "fst (s3parcp ext abs_fn s3uri) = 0"
    and "inode fs abs_fn = Inr i"
    and "cached_files s i = Some (key, outputs)"
  shows "uploaded_files (snd (upload_file cfg fs ext abs_fn s3uri s)) i = Some s3uri \<and>
         cached_files (snd (upload_file cfg fs ext abs_fn s3uri s)) = cached_files s \<and>
         cached_files (snd (upload_file cfg fs ext abs_fn s3uri s)) i = Some (key, outputs) \<and>
         s3_objects (snd (upload_file cfg fs ext abs_fn s3uri s)) =
           s3_objects (snd (cache_put cfg fs key outputs
              ((snd (s3cp ext abs_fn s3uri s))\<lparr>uploaded_files := (uploaded_files s)(i \<mapsto> s3uri)\<rparr>)))"
  using assms upload_file_recorded[OF assms(1,2)] upload_file_s3_objects[OF assms]
  by (simp add: upload_file_cached_files)

text \<open>The theorem at the file \<open>/w/f.txt\<close>, pending for the key \<open>k\<close>.\<close>

theorem upload_keeps_pending_entry_witness:
  "fst (s3parcp ext_ok ''/w/f.txt'' ''s3://bucket/run1/f.txt'') = 0 \<and>
   inode fs0 ''/w/f.txt'' = Inr (1, 10) \<and>
   cached_files (snd (put cfg0 fs0 ''k'' outs_f s0)) (1, 10) = Some (''k'', outs_f) \<and>
   uploaded_files (snd (upload_file cfg0 fs0 ext_ok ''/w/f.txt'' ''s3://bucket/run1/f.txt''
       (snd (put cfg0 fs0 ''k'' outs_f s0)))) (1, 10) = Some ''s3://bucket/run1/f.txt'' \<and>
   cached_files (snd (upload_file cfg0 fs0 ext_ok ''/w/f.txt'' ''s3://bucket/run1/f.txt''
       (snd (put cfg0 fs0 ''k'' outs_f s0)))) = cached_files (snd (put cfg0 fs0 ''k'' outs_f s0))"
proof -
  have h1: "fst (s3parcp ext_ok ''/w/f.txt'' ''s3://bucket/run1/f.txt'') = 0"
    by (simp add: ext_ok_def)
  have h2: "inode fs0 ''/w/f.txt'' = Inr (1, 10)"
    by (simp add: fs_eval fs0_def)
  have h3: "cached_files (snd (put cfg0 fs0 ''k'' outs_f s0)) (1, 10) = Some (''k'', outs_f)"
    by (simp add: op_defs fs_eval ex_defs)
  from upload_keeps_pending_entry[OF h1 h2 h3, of cfg0] h1 h2 h3 show ?thesis by simp
qed

text \<open>
  C2 as stated fails: after the insert of \<open>outs_f\<close> under key \<open>k\<close> and the upload of its only file,
  the ledger holds the identity \<open>(1, 10)\<close> and the registry still maps it to the entry.
\<close>

theorem pending_entry_removed_counterexample:
  "uploaded_files (snd (upload_file cfg0 fs0 ext_ok ''/w/f.txt'' ''s3://bucket/run1/f.txt''
                      (snd (put cfg0 fs0 ''k'' outs_f s0)))) (1, 10) = Some ''s3://bucket/run1/f.txt'' \<and>
   cached_files (snd (put cfg0 fs0 ''k'' outs_f s0)) (1, 10) = Some (''k'', outs_f) \<and>
   cached_files (snd (upload_file cfg0 fs0 ext_ok ''/w/f.txt'' ''s3://bucket/run1/f.txt''
                      (snd (put cfg0 fs0 ''k'' outs_f s0)))) (1, 10) = Some (''k'', outs_f)"
  by (simp add: op_defs fs_eval ex_defs Let_def)

subsection \<open>C3: which values an insert registers\<close>




subsection \<open>C4: an output that was never uploaded\<close>

text \<open>
  C4 does not hold of the code.  The workflow hook is run on bindings with two files, none of
  them in the ledger.  The callback logs the warning for the first file and then raises
  \<open>NameError\<close>: the hook fails, the second file is never visited, and no manifest is written
  or copied.
\<close>

theorem unuploaded_output_aborts_manifest:
  "fst (workflow cfg0 fs0 ext_ok [''run'', ''wf''] ''/run'' ''wf'' outs_fg s0) = Inl (NameError ''fn'') \<and>
   log (snd (workflow cfg0 fs0 ext_ok [''run'', ''wf''] ''/run'' ''wf'' outs_fg s0))
     = [(WARNING, ''output file or directory wasn't uploaded to S3; keeping local path in outputs.s3.json'',
         [(''path'', Text ''/w/f.txt'')])] \<and>
   local_files (snd (workflow cfg0 fs0 ext_ok [''run'', ''wf''] ''/run'' ''wf'' outs_fg s0)) = [] \<and>
   s3parcp_calls (snd (workflow cfg0 fs0 ext_ok [''run'', ''wf''] ''/run'' ''wf'' outs_fg s0)) = []"
  by (simp add: workflow_def write_outputs_s3_json_def rewriter_def op_defs fs_eval ex_defs Let_def)

subsection \<open>C5: a failed copy\<close>



subsection \<open>C6: the key of the local lookup\<close>




subsection \<open>C7: failures of the remote fetch\<close>



subsection \<open>C8: two names of one file\<close>



subsection \<open>C9: destinations by output shape\<close>



subsection \<open>C10: the two gates of the cache insert\<close>



end
